theory Spec2Isabelle
  imports Complex_Main
begin

section \<open>Data model of Loush.js\<close>

text \<open>
  Fibers and hook records are mutable JavaScript objects that refer to each other
  (\<open>parent\<close>, \<open>child\<close>, \<open>sibling\<close>, \<open>alternate\<close>), so they live in an
  explicit store: a fiber is addressed by a \<open>ref\<close>, a hook record by an \<open>href\<close>.
  Host (DOM) nodes belong to the host adapter; only their handles appear here.
  JavaScript function values (components, event handlers, effect callbacks, cleanups,
  state updaters, built-in functions) are known by their identity; what a user function
  does when it is called is given by the record \<open>user\<close> below.
\<close>

type_synonym ref = nat
type_synonym href = nat
type_synonym node = nat
type_synonym fn = nat

text \<open>JavaScript values: prop values, states, dependencies. A string is a sequence of
  Latin-1 code units. A number is \<open>NaN\<close>, an infinity (\<open>True\<close> for the positive one) or a
  real number; the two zeros, which \<open>===\<close> does not tell apart, are one value. \<open>VObj\<close> is
  any other value that \<open>===\<close> compares by identity (an object, an array, a symbol).\<close>

datatype val =
    VUndefined | VNull | VBool bool | VNum real | VInfinity bool | VNaN | VStr string
  | VFn fn | VObj nat

text \<open>\<open>a === b\<close>: the same value, except that \<open>NaN\<close> is not equal to itself.
  \<open>a !== b\<close> is its negation.\<close>

definition strict_eq :: "val \<Rightarrow> val \<Rightarrow> bool" where
  "strict_eq a b = (a = b \<and> a \<noteq> VNaN)"

text \<open>The \<open>type\<close> of an element or fiber: absent (the synthetic root), a host tag or
  a component function.\<close>

datatype jtype = TUndefined | TStr string | TFn fn

text \<open>An element \<open>{type, props: {...attrs, children}}\<close>. The own enumerable properties
  of \<open>props\<close> other than \<open>children\<close> are listed in the order \<open>Object.keys\<close> reports
  them. A child slot holds an element or \<open>null\<close> (\<open>createElement\<close> passes \<open>null\<close>
  through, since \<open>typeof null === "object"\<close>).\<close>

datatype element = Element (etype: jtype) (eattrs: "(string \<times> val) list") (echildren: "element option list")

record props =
  attrs :: "(string \<times> val) list"
  children :: "element option list"

definition eprops :: "element \<Rightarrow> props" where
  "eprops e = \<lparr>attrs = eattrs e, children = echildren e\<rparr>"

datatype tag = PLACEMENT | UPDATE | DELETION

text \<open>A fiber object. \<open>ftype\<close>, \<open>fprops\<close> and \<open>fdom\<close> are its fields \<open>type\<close>, \<open>props\<close>
  and \<open>dom\<close>; a link or list the object does not have (or holds \<open>null\<close>) is
  \<open>None\<close>. Every test the source makes on these fields is a test for truthiness or
  against \<open>null\<close>, which the two do not tell apart.\<close>

record fiber =
  ftype :: jtype
  fprops :: props
  fdom :: "node option"
  parent :: "ref option"
  child :: "ref option"
  sibling :: "ref option"
  alternate :: "ref option"
  effectTag :: "tag option"
  hooks :: "href list option"
  effects :: "fn list option"
  cleanups :: "fn list option"

text \<open>A hook record is an open object: a state hook has \<open>state\<close> and \<open>queue\<close>, an
  effect hook has \<open>dependencies\<close> and \<open>cleanup\<close>; a field the object lacks reads as
  \<open>undefined\<close>.\<close>

record hook =
  hstate :: val
  queue :: "val list option"
  dependencies :: "val list option"
  cleanup :: "fn option"

text \<open>What the engine does to the outside world, in order: host operations and
  invocations of user callbacks.\<close>

datatype event =
    CreateTextNode node
  | CreateElement node jtype
  | AppendChild node node
  | RemoveChild node node
  | SetProp node string val
  | AddListener node string val
  | RemoveListener node string val
  | Called fn

text \<open>The module-level variables, the two stores with their allocation pointers, the
  next fresh host node handle and the trace. \<open>hookIndex\<close> starts as \<open>null\<close> in the
  source; it is read only after \<open>updateFunctionComponent\<close> has set it, so it is a
  number here.\<close>

record state =
  nextUnitOfWork :: "ref option"
  currentRoot :: "ref option"
  wipRoot :: "ref option"
  deletions :: "ref list option"
  wipFiber :: "ref option"
  hookIndex :: nat
  heap :: "ref \<Rightarrow> fiber"
  nxt :: ref
  hheap :: "href \<Rightarrow> hook"
  hnxt :: href
  nodes :: node
  trace :: "event list"

text \<open>Outcome of a call: it returns; or it throws, leaving the store as it was at the
  throw (the engine throws a \<open>TypeError\<close> when it reads a property of
  \<open>null\<close>/\<open>undefined\<close> or calls a non-function; user code may throw anything, and
  nothing in the module catches); or the model's fuel ran out (the source would still be
  running).\<close>

datatype 'a result = Ok 'a | TypeError state | OutOfFuel

definition rbind :: "'a result \<Rightarrow> ('a \<Rightarrow> 'b result) \<Rightarrow> 'b result" where
  "rbind r f = (case r of Ok x \<Rightarrow> f x | TypeError s \<Rightarrow> TypeError s | OutOfFuel \<Rightarrow> OutOfFuel)"

definition emit :: "event list \<Rightarrow> state \<Rightarrow> state" where
  "emit es s = s\<lparr>trace := trace s @ es\<rparr>"

subsection \<open>User code\<close>

text \<open>The body of a user function is a program over the engine's entry points: it may
  call the hooks (the continuation of \<open>UseState\<close> receives the state and the setter, a
  closure over the new hook record), a setter or \<open>render\<close>, and it returns a value or
  throws. A component returns an element or \<open>null\<close>; an effect callback or a cleanup
  returns any value. \<open>applies\<close> is what a state updater computes, \<open>toString\<close> the
  string a function converts to (its source text, unless it overrides \<open>toString\<close>).\<close>

datatype 'a prog =
    Return 'a
  | Throw
  | UseState val "val \<Rightarrow> href \<Rightarrow> 'a prog"
  | UseEffect fn "val list option" "'a prog"
  | CallSetState href val "'a prog"
  | CallRender "element option" "node option" "'a prog"

record user =
  component :: "fn \<Rightarrow> props \<Rightarrow> element option prog"
  invoke :: "fn \<Rightarrow> val prog"
  applies :: "fn \<Rightarrow> val \<Rightarrow> val"
  toString :: "fn \<Rightarrow> string"

text \<open>\<open>a == b\<close> on two types. Two strings, and two functions, compare as under \<open>===\<close>;
  a string and a function are compared after the function is converted to a string;
  \<open>undefined\<close> equals itself only.\<close>

definition loose_eq :: "user \<Rightarrow> jtype \<Rightarrow> jtype \<Rightarrow> bool" where
  "loose_eq u a b =
     (case a of
        TUndefined \<Rightarrow> b = TUndefined
      | TStr x \<Rightarrow> (case b of TUndefined \<Rightarrow> False | TStr y \<Rightarrow> x = y | TFn g \<Rightarrow> x = toString u g)
      | TFn f \<Rightarrow> (case b of TUndefined \<Rightarrow> False | TStr y \<Rightarrow> toString u f = y | TFn g \<Rightarrow> f = g))"

section \<open>Host adapter\<close>

text \<open>\<open>updateDom\<close> reads a props object through \<open>Object.keys\<close>, \<open>in\<close> and
  indexing. The \<open>children\<close> entry never passes the first filter of any pass, so the
  passes are modelled on the other entries; \<open>isProperty\<close> keeps its test.\<close>

definition isEvent :: "string \<Rightarrow> bool" where
  "isEvent key = (take 2 key = ''on'')"

definition isProperty :: "string \<Rightarrow> bool" where
  "isProperty key = (key \<noteq> ''children'' \<and> \<not> isEvent key)"

definition keys :: "(string \<times> val) list \<Rightarrow> string list" where
  "keys obj = map fst obj"

text \<open>A props object is a plain object (\<open>createElement\<close> builds it with a spread, and
  \<open>createDom\<close> passes \<open>{}\<close>), so beside its own properties it has those it inherits from
  \<open>Object.prototype\<close>: the standard methods, built-in functions that have the identities
  1000 to 1010 here, and the accessor \<open>__proto__\<close>, which reads as \<open>Object.prototype\<close>
  itself (object 0).\<close>

definition Object_prototype :: "(string \<times> val) list" where
  "Object_prototype =
     [(''constructor'', VFn 1000), (''__defineGetter__'', VFn 1001), (''__defineSetter__'', VFn 1002),
      (''hasOwnProperty'', VFn 1003), (''__lookupGetter__'', VFn 1004), (''__lookupSetter__'', VFn 1005),
      (''isPrototypeOf'', VFn 1006), (''propertyIsEnumerable'', VFn 1007), (''toString'', VFn 1008),
      (''valueOf'', VFn 1009), (''toLocaleString'', VFn 1010), (''__proto__'', VObj 0)]"

text \<open>\<open>key in obj\<close> and \<open>obj[key]\<close>: the object's own property first, then the
  inherited one.\<close>

definition has :: "(string \<times> val) list \<Rightarrow> string \<Rightarrow> bool" where
  "has obj key = (key \<in> set (keys obj) \<or> key \<in> set (keys Object_prototype))"

definition get :: "(string \<times> val) list \<Rightarrow> string \<Rightarrow> val" where
  "get obj key =
     (case map_of obj key of
        Some v \<Rightarrow> v
      | None \<Rightarrow> (case map_of Object_prototype key of Some v \<Rightarrow> v | None \<Rightarrow> VUndefined))"

definition isNew :: "(string \<times> val) list \<Rightarrow> (string \<times> val) list \<Rightarrow> string \<Rightarrow> bool" where
  "isNew prev next key = (\<not> strict_eq (get prev key) (get next key))"

definition isGone :: "(string \<times> val) list \<Rightarrow> (string \<times> val) list \<Rightarrow> string \<Rightarrow> bool" where
  "isGone prev next key = (\<not> has next key)"

text \<open>\<open>String.prototype.toLowerCase\<close> on Latin-1 code units: the capital letters are
  \<open>A\<close> to \<open>Z\<close> and the code units \<open>0xC0\<close> to \<open>0xDE\<close> other than the multiplication sign
  \<open>0xD7\<close>; each has its small letter 32 places later.\<close>

definition capitals :: string where
  "capitals = ''ABCDEFGHIJKLMNOPQRSTUVWXYZ''
     @ [CHR 0xC0, CHR 0xC1, CHR 0xC2, CHR 0xC3, CHR 0xC4, CHR 0xC5, CHR 0xC6, CHR 0xC7,
        CHR 0xC8, CHR 0xC9, CHR 0xCA, CHR 0xCB, CHR 0xCC, CHR 0xCD, CHR 0xCE, CHR 0xCF,
        CHR 0xD0, CHR 0xD1, CHR 0xD2, CHR 0xD3, CHR 0xD4, CHR 0xD5, CHR 0xD6,
        CHR 0xD8, CHR 0xD9, CHR 0xDA, CHR 0xDB, CHR 0xDC, CHR 0xDD, CHR 0xDE]"

definition smalls :: string where
  "smalls = ''abcdefghijklmnopqrstuvwxyz''
     @ [CHR 0xE0, CHR 0xE1, CHR 0xE2, CHR 0xE3, CHR 0xE4, CHR 0xE5, CHR 0xE6, CHR 0xE7,
        CHR 0xE8, CHR 0xE9, CHR 0xEA, CHR 0xEB, CHR 0xEC, CHR 0xED, CHR 0xEE, CHR 0xEF,
        CHR 0xF0, CHR 0xF1, CHR 0xF2, CHR 0xF3, CHR 0xF4, CHR 0xF5, CHR 0xF6,
        CHR 0xF8, CHR 0xF9, CHR 0xFA, CHR 0xFB, CHR 0xFC, CHR 0xFD, CHR 0xFE]"

definition toLowerCase_char :: "char \<Rightarrow> char" where
  "toLowerCase_char c = (case map_of (zip capitals smalls) c of None \<Rightarrow> c | Some l \<Rightarrow> l)"

definition toLowerCase :: "string \<Rightarrow> string" where
  "toLowerCase name = map toLowerCase_char name"

definition eventType :: "string \<Rightarrow> string" where
  "eventType name = drop 2 (toLowerCase name)"

definition updateDom :: "node \<Rightarrow> (string \<times> val) list \<Rightarrow> (string \<times> val) list \<Rightarrow> event list" where
  "updateDom d prevProps nextProps =
     map (\<lambda>name. RemoveListener d (eventType name) (get prevProps name))
       (filter (\<lambda>key. \<not> has nextProps key \<or> isNew prevProps nextProps key)
         (filter isEvent (keys prevProps)))
   @ map (\<lambda>name. SetProp d name (VStr ''''))
       (filter (isGone prevProps nextProps) (filter isProperty (keys prevProps)))
   @ map (\<lambda>name. SetProp d name (get nextProps name))
       (filter (isNew prevProps nextProps) (filter isProperty (keys nextProps)))
   @ map (\<lambda>name. AddListener d (eventType name) (get nextProps name))
       (filter (isNew prevProps nextProps) (filter isEvent (keys nextProps)))"

text \<open>\<open>createDom\<close>: a fresh host node, a text node when \<open>fiber.type == "TEXT_ELEMENT"\<close>,
  then the initial props against \<open>{}\<close>.\<close>

definition createDom :: "user \<Rightarrow> ref \<Rightarrow> state \<Rightarrow> node \<times> state" where
  "createDom u f s =
     (let d = nodes s;
          fb = heap s f
      in (d, emit ((if loose_eq u (ftype fb) (TStr ''TEXT_ELEMENT'') then CreateTextNode d
                    else CreateElement d (ftype fb))
                   # updateDom d [] (attrs (fprops fb)))
               (s\<lparr>nodes := Suc d\<rparr>)))"

section \<open>Entry point\<close>

text \<open>The root object literal of \<open>render\<close> and \<open>setState\<close>: \<open>{dom, props, alternate}\<close>.\<close>

definition root_fiber :: "props \<Rightarrow> node option \<Rightarrow> ref option \<Rightarrow> fiber" where
  "root_fiber p d alt =
     \<lparr>ftype = TUndefined, fprops = p, fdom = d, parent = None, child = None, sibling = None,
      alternate = alt, effectTag = None, hooks = None, effects = None, cleanups = None\<rparr>"

text \<open>An object literal makes a fresh fiber object.\<close>

definition alloc :: "fiber \<Rightarrow> state \<Rightarrow> ref \<times> state" where
  "alloc fb s = (nxt s, s\<lparr>heap := (heap s)(nxt s := fb), nxt := Suc (nxt s)\<rparr>)"

definition render :: "element option \<Rightarrow> node option \<Rightarrow> state \<Rightarrow> state" where
  "render element container s =
     (case alloc (root_fiber \<lparr>attrs = [], children = [element]\<rparr> container (currentRoot s)) s of
        (r, s1) \<Rightarrow> s1\<lparr>wipRoot := Some r, deletions := Some [], nextUnitOfWork := Some r\<rparr>)"

section \<open>Diff engine\<close>

text \<open>The fiber object literal of \<open>reconcileChildren\<close>: \<open>{type, props, dom, parent,
  alternate, effectTag}\<close>.\<close>

definition new_fiber :: "jtype \<Rightarrow> props \<Rightarrow> node option \<Rightarrow> ref \<Rightarrow> ref option \<Rightarrow> tag \<Rightarrow> fiber" where
  "new_fiber t p d par alt tg =
     \<lparr>ftype = t, fprops = p, fdom = d, parent = Some par, child = None, sibling = None,
      alternate = alt, effectTag = Some tg, hooks = None, effects = None, cleanups = None\<rparr>"

text \<open>\<open>elements[index]\<close>: \<open>undefined\<close> past the end; \<open>null\<close> and \<open>undefined\<close> are
  both falsy, which is all the loop asks.\<close>

definition element_at :: "element option list \<Rightarrow> nat \<Rightarrow> element option" where
  "element_at elements index = (if index < length elements then elements ! index else None)"

text \<open>\<open>oldFiber && element && element.type == oldFiber.type\<close>\<close>

definition sameType :: "user \<Rightarrow> state \<Rightarrow> ref option \<Rightarrow> element option \<Rightarrow> bool" where
  "sameType u s oldFiber element =
     (case oldFiber of
        None \<Rightarrow> False
      | Some ol \<Rightarrow>
          (case element of None \<Rightarrow> False | Some e \<Rightarrow> loose_eq u (etype e) (ftype (heap s ol))))"

text \<open>The two object literals of the loop body: the \<open>UPDATE\<close> fiber when
  \<open>sameType\<close>, the \<open>PLACEMENT\<close> fiber when \<open>element && !sameType\<close>.\<close>

definition make_fiber :: "user \<Rightarrow> ref \<Rightarrow> ref option \<Rightarrow> element option \<Rightarrow> state \<Rightarrow> ref option \<times> state" where
  "make_fiber u w oldFiber element s =
     (case element of
        None \<Rightarrow> (None, s)
      | Some e \<Rightarrow>
          (case (if sameType u s oldFiber element then oldFiber else None) of
             Some ol \<Rightarrow>
               (case alloc (new_fiber (ftype (heap s ol)) (eprops e) (fdom (heap s ol)) w (Some ol) UPDATE) s of
                  (r, s1) \<Rightarrow> (Some r, s1))
           | None \<Rightarrow>
               (case alloc (new_fiber (etype e) (eprops e) None w None PLACEMENT) s of
                  (r, s1) \<Rightarrow> (Some r, s1))))"

text \<open>\<open>if (oldFiber && !sameType) { oldFiber.effectTag = "DELETION"; deletions.push(oldFiber) }\<close>\<close>

definition mark_deletion :: "bool \<Rightarrow> ref option \<Rightarrow> state \<Rightarrow> state result" where
  "mark_deletion same oldFiber s =
     (case oldFiber of
        None \<Rightarrow> Ok s
      | Some ol \<Rightarrow>
          if same then Ok s
          else (let s1 = s\<lparr>heap := (heap s)(ol := (heap s ol)\<lparr>effectTag := Some DELETION\<rparr>)\<rparr> in
                case deletions s1 of
                  None \<Rightarrow> TypeError s1
                | Some ds \<Rightarrow> Ok (s1\<lparr>deletions := Some (ds @ [ol])\<rparr>)))"

text \<open>\<open>if (index === 0) wipFiber.child = newFiber else if (element) prevSibling.sibling = newFiber\<close>\<close>

definition link_fiber :: "ref \<Rightarrow> nat \<Rightarrow> element option \<Rightarrow> ref option \<Rightarrow> ref option \<Rightarrow> state \<Rightarrow> state result" where
  "link_fiber w index element prevSibling newFiber s =
     (if index = 0 then Ok (s\<lparr>heap := (heap s)(w := (heap s w)\<lparr>child := newFiber\<rparr>)\<rparr>)
      else if element \<noteq> None then
        (case prevSibling of
           None \<Rightarrow> TypeError s
         | Some p \<Rightarrow> Ok (s\<lparr>heap := (heap s)(p := (heap s p)\<lparr>sibling := newFiber\<rparr>)\<rparr>))
      else Ok s)"

text \<open>One pass through the loop body, at position \<open>index\<close>; it returns the next
  \<open>oldFiber\<close> and the next \<open>prevSibling\<close> (the fiber it made, or \<open>null\<close>).\<close>

definition reconcile_iter ::
  "user \<Rightarrow> ref \<Rightarrow> element option list \<Rightarrow> nat \<Rightarrow> ref option \<Rightarrow> ref option \<Rightarrow> state
     \<Rightarrow> (ref option \<times> ref option \<times> state) result" where
  "reconcile_iter u w elements index oldFiber prevSibling s =
     (let element = element_at elements index;
          same = sameType u s oldFiber element
      in case make_fiber u w oldFiber element s of
           (newFiber, s1) \<Rightarrow>
             rbind (mark_deletion same oldFiber s1) (\<lambda>s2.
             (let oldFiber' = (case oldFiber of None \<Rightarrow> None | Some ol \<Rightarrow> sibling (heap s2 ol)) in
              rbind (link_fiber w index element prevSibling newFiber s2) (\<lambda>s3.
              Ok (oldFiber', newFiber, s3)))))"

fun reconcile_loop ::
  "user \<Rightarrow> nat \<Rightarrow> ref \<Rightarrow> element option list \<Rightarrow> nat \<Rightarrow> ref option \<Rightarrow> ref option \<Rightarrow> state \<Rightarrow> state result" where
  "reconcile_loop u 0 w elements index oldFiber prevSibling s = OutOfFuel"
| "reconcile_loop u (Suc n) w elements index oldFiber prevSibling s =
     (if index < length elements \<or> oldFiber \<noteq> None then
        rbind (reconcile_iter u w elements index oldFiber prevSibling s)
          (\<lambda>(oldFiber', prevSibling', s'). reconcile_loop u n w elements (Suc index) oldFiber' prevSibling' s')
      else Ok s)"

definition reconcileChildren :: "user \<Rightarrow> nat \<Rightarrow> ref \<Rightarrow> element option list \<Rightarrow> state \<Rightarrow> state result" where
  "reconcileChildren u n w elements s =
     reconcile_loop u n w elements 0
       (case alternate (heap s w) of None \<Rightarrow> None | Some a \<Rightarrow> child (heap s a)) None s"

section \<open>Hook state store\<close>

text \<open>\<open>wipFiber.alternate && wipFiber.alternate.hooks && wipFiber.alternate.hooks[hookIndex]\<close>\<close>

definition oldHook :: "state \<Rightarrow> ref \<Rightarrow> href option" where
  "oldHook s w =
     (case alternate (heap s w) of
        None \<Rightarrow> None
      | Some a \<Rightarrow>
          (case hooks (heap s a) of
             None \<Rightarrow> None
           | Some hs \<Rightarrow> if hookIndex s < length hs then Some (hs ! hookIndex s) else None))"

text \<open>\<open>actions.forEach(action => { hook.state = action(hook.state) })\<close>; calling an
  entry that is not a function throws (\<open>None\<close>).\<close>

fun replay :: "(fn \<Rightarrow> val \<Rightarrow> val) \<Rightarrow> val list \<Rightarrow> val \<Rightarrow> val option" where
  "replay ap [] st = Some st"
| "replay ap (action # actions) st =
     (case action of VFn f \<Rightarrow> replay ap actions (ap f st) | _ \<Rightarrow> None)"

definition state_hook :: "val \<Rightarrow> hook" where
  "state_hook st = \<lparr>hstate = st, queue = Some [], dependencies = None, cleanup = None\<rparr>"

definition effect_hook :: "val list option \<Rightarrow> hook" where
  "effect_hook deps = \<lparr>hstate = VUndefined, queue = None, dependencies = deps, cleanup = None\<rparr>"

text \<open>\<open>wipFiber.hooks.push(hook); hookIndex++\<close> with a fresh hook record.\<close>

definition push_hook :: "ref \<Rightarrow> hook \<Rightarrow> state \<Rightarrow> (href \<times> state) result" where
  "push_hook w hk s =
     (case hooks (heap s w) of
        None \<Rightarrow> TypeError s
      | Some hs \<Rightarrow>
          (let h = hnxt s in
           Ok (h, s\<lparr>hheap := (hheap s)(h := hk), hnxt := Suc h,
                    heap := (heap s)(w := (heap s w)\<lparr>hooks := Some (hs @ [h])\<rparr>),
                    hookIndex := Suc (hookIndex s)\<rparr>)))"

text \<open>\<open>useState\<close> returns the pair of the state and the setter; the setter is the
  closure \<open>setState\<close> over the new hook record, named here by that record.\<close>

definition useState :: "user \<Rightarrow> val \<Rightarrow> state \<Rightarrow> ((val \<times> href) \<times> state) result" where
  "useState u initial s =
     (case wipFiber s of
        None \<Rightarrow> TypeError s
      | Some w \<Rightarrow>
          (let old = oldHook s w;
               st0 = (case old of None \<Rightarrow> initial | Some oh \<Rightarrow> hstate (hheap s oh));
               actions = (case old of None \<Rightarrow> Some [] | Some oh \<Rightarrow> queue (hheap s oh))
           in case actions of
                None \<Rightarrow> TypeError s
              | Some acts \<Rightarrow>
                  (case replay (applies u) acts st0 of
                     None \<Rightarrow> TypeError s
                   | Some st \<Rightarrow>
                       rbind (push_hook w (state_hook st) s) (\<lambda>(h, s1). Ok ((st, h), s1)))))"

definition setState :: "href \<Rightarrow> val \<Rightarrow> state \<Rightarrow> state result" where
  "setState h action s =
     (case queue (hheap s h) of
        None \<Rightarrow> TypeError s
      | Some q \<Rightarrow>
          (let s1 = s\<lparr>hheap := (hheap s)(h := (hheap s h)\<lparr>queue := Some (q @ [action])\<rparr>)\<rparr> in
           case currentRoot s1 of
             None \<Rightarrow> TypeError s1
           | Some c \<Rightarrow>
               (case alloc (root_fiber (fprops (heap s1 c)) (fdom (heap s1 c)) (Some c)) s1 of
                  (r, s2) \<Rightarrow> Ok (s2\<lparr>wipRoot := Some r, nextUnitOfWork := Some r, deletions := Some []\<rparr>))))"

text \<open>\<open>dependencies.some((dep, i) => dep !== oldHook.dependencies[i])\<close>, from index
  \<open>i\<close> on; indexing an absent \<open>oldHook.dependencies\<close> throws (\<open>None\<close>), an index past
  its end reads \<open>undefined\<close>.\<close>

definition array_at :: "val list \<Rightarrow> nat \<Rightarrow> val" where
  "array_at xs i = (if i < length xs then xs ! i else VUndefined)"

fun some_differs :: "val list \<Rightarrow> nat \<Rightarrow> val list option \<Rightarrow> bool option" where
  "some_differs [] i old = Some False"
| "some_differs (dep # deps) i old =
     (case old of
        None \<Rightarrow> None
      | Some od \<Rightarrow>
          if \<not> strict_eq dep (array_at od i) then Some True
          else some_differs deps (Suc i) old)"

definition hasChanged :: "state \<Rightarrow> href option \<Rightarrow> val list option \<Rightarrow> bool option" where
  "hasChanged s old deps =
     (case old of
        None \<Rightarrow> Some True
      | Some oh \<Rightarrow>
          (case deps of
             None \<Rightarrow> None
           | Some ds \<Rightarrow> some_differs ds 0 (dependencies (hheap s oh))))"

text \<open>The body of \<open>if (hasChanged) { ... }\<close>: push the old cleanup, if any, then the
  effect closure.\<close>

definition schedule :: "ref \<Rightarrow> href option \<Rightarrow> fn \<Rightarrow> state \<Rightarrow> state result" where
  "schedule w old callback s =
     rbind (case (case old of None \<Rightarrow> None | Some oh \<Rightarrow> cleanup (hheap s oh)) of
              None \<Rightarrow> Ok s
            | Some c \<Rightarrow>
                (case cleanups (heap s w) of
                   None \<Rightarrow> TypeError s
                 | Some cs \<Rightarrow> Ok (s\<lparr>heap := (heap s)(w := (heap s w)\<lparr>cleanups := Some (cs @ [c])\<rparr>)\<rparr>)))
       (\<lambda>s1. case effects (heap s1 w) of
                None \<Rightarrow> TypeError s1
              | Some es \<Rightarrow> Ok (s1\<lparr>heap := (heap s1)(w := (heap s1 w)\<lparr>effects := Some (es @ [callback])\<rparr>)\<rparr>))"

definition useEffect :: "fn \<Rightarrow> val list option \<Rightarrow> state \<Rightarrow> state result" where
  "useEffect callback deps s =
     (case wipFiber s of
        None \<Rightarrow> TypeError s
      | Some w \<Rightarrow>
          (let old = oldHook s w in
           case hasChanged s old deps of
             None \<Rightarrow> TypeError s
           | Some changed \<Rightarrow>
               rbind (if changed then schedule w old callback s else Ok s) (\<lambda>s1.
               rbind (push_hook w (effect_hook deps) s1) (\<lambda>(h, s2). Ok s2))))"

text \<open>Running the body of a user function: each call of a hook, a setter or \<open>render\<close>
  acts on the state; an exception ends the body.\<close>

primrec run_prog :: "user \<Rightarrow> 'a prog \<Rightarrow> state \<Rightarrow> ('a \<times> state) result" where
  "run_prog u (Return e) s = Ok (e, s)"
| "run_prog u Throw s = TypeError s"
| "run_prog u (UseState initial k) s =
     (case useState u initial s of
        Ok ((st, h), s1) \<Rightarrow> run_prog u (k st h) s1
      | TypeError s1 \<Rightarrow> TypeError s1
      | OutOfFuel \<Rightarrow> OutOfFuel)"
| "run_prog u (UseEffect callback deps k) s =
     (case useEffect callback deps s of
        Ok s1 \<Rightarrow> run_prog u k s1
      | TypeError s1 \<Rightarrow> TypeError s1
      | OutOfFuel \<Rightarrow> OutOfFuel)"
| "run_prog u (CallSetState h action k) s =
     (case setState h action s of
        Ok s1 \<Rightarrow> run_prog u k s1
      | TypeError s1 \<Rightarrow> TypeError s1
      | OutOfFuel \<Rightarrow> OutOfFuel)"
| "run_prog u (CallRender element container k) s = run_prog u k (render element container s)"

section \<open>Commit phase\<close>

text \<open>\<open>commitDeletion\<close>: remove the fiber's own host node, or descend through first
  children to the first fiber that owns one. Reading \<open>.dom\<close> of an absent child throws.\<close>

fun commitDeletion :: "nat \<Rightarrow> ref option \<Rightarrow> node \<Rightarrow> state \<Rightarrow> state result" where
  "commitDeletion 0 fiber domParent s = OutOfFuel"
| "commitDeletion (Suc n) None domParent s = TypeError s"
| "commitDeletion (Suc n) (Some f) domParent s =
     (case fdom (heap s f) of
        Some d \<Rightarrow> Ok (emit [RemoveChild domParent d] s)
      | None \<Rightarrow> commitDeletion n (child (heap s f)) domParent s)"

text \<open>The loop \<open>while (!domParentFiber.dom) domParentFiber = domParentFiber.parent\<close>,
  started at \<open>fiber.parent\<close>.\<close>

fun findDomParent :: "nat \<Rightarrow> ref option \<Rightarrow> state \<Rightarrow> node result" where
  "findDomParent 0 domParentFiber s = OutOfFuel"
| "findDomParent (Suc n) None s = TypeError s"
| "findDomParent (Suc n) (Some p) s =
     (case fdom (heap s p) of
        Some d \<Rightarrow> Ok d
      | None \<Rightarrow> findDomParent n (parent (heap s p)) s)"

text \<open>The \<open>if\<close> / \<open>else if\<close> chain of \<open>commitWork\<close> on the fiber's \<open>effectTag\<close>.\<close>

definition applyEffect :: "nat \<Rightarrow> ref \<Rightarrow> node \<Rightarrow> state \<Rightarrow> state result" where
  "applyEffect n f domParent s =
     (let fb = heap s f in
      if effectTag fb = Some PLACEMENT \<and> fdom fb \<noteq> None then
        (case fdom fb of Some d \<Rightarrow> Ok (emit [AppendChild domParent d] s) | None \<Rightarrow> Ok s)
      else if effectTag fb = Some UPDATE \<and> fdom fb \<noteq> None then
        (case fdom fb of
           Some d \<Rightarrow>
             (case alternate fb of
                None \<Rightarrow> TypeError s
              | Some a \<Rightarrow> Ok (emit (updateDom d (attrs (fprops (heap s a))) (attrs (fprops fb))) s))
         | None \<Rightarrow> Ok s)
      else if effectTag fb = Some DELETION then commitDeletion n (Some f) domParent s
      else Ok s)"

fun commitWork :: "nat \<Rightarrow> ref option \<Rightarrow> state \<Rightarrow> state result" where
  "commitWork 0 fiber s = OutOfFuel"
| "commitWork (Suc n) None s = Ok s"
| "commitWork (Suc n) (Some f) s =
     rbind (findDomParent n (parent (heap s f)) s) (\<lambda>domParent.
     rbind (applyEffect n f domParent s) (\<lambda>s1.
     rbind (commitWork n (child (heap s1 f)) s1) (\<lambda>s2.
     commitWork n (sibling (heap s2 f)) s2)))"

text \<open>\<open>deletions.forEach(commitWork)\<close>.\<close>

fun commitDeletions :: "nat \<Rightarrow> ref list \<Rightarrow> state \<Rightarrow> state result" where
  "commitDeletions n [] s = Ok s"
| "commitDeletions n (f # fs) s = rbind (commitWork n (Some f) s) (commitDeletions n fs)"

text \<open>A call \<open>f()\<close> of a user callback: its body runs on the store, and may change the
  module's variables through the entry points it calls.\<close>

definition runCallback :: "user \<Rightarrow> fn \<Rightarrow> state \<Rightarrow> (val \<times> state) result" where
  "runCallback u f s = run_prog u (invoke u f) (emit [Called f] s)"

text \<open>\<open>cleanupFn()\<close> for each entry of \<open>cleanups\<close>.\<close>

fun runCleanups :: "user \<Rightarrow> fn list \<Rightarrow> state \<Rightarrow> state result" where
  "runCleanups u [] s = Ok s"
| "runCleanups u (c # cs) s = rbind (runCallback u c s) (\<lambda>(ret, s1). runCleanups u cs s1)"

text \<open>One entry of \<open>effects\<close> is the closure pushed by \<open>useEffect\<close> around
  \<open>callback\<close>: it calls \<open>callback\<close> and stores a returned function in
  \<open>wipFiber.hooks[hookIndex].cleanup\<close>, reading both variables after the call.\<close>

definition runEffect :: "user \<Rightarrow> fn \<Rightarrow> state \<Rightarrow> state result" where
  "runEffect u cb s =
     rbind (runCallback u cb s) (\<lambda>(ret, s1).
       case ret of
         VFn c \<Rightarrow>
           (case wipFiber s1 of
              None \<Rightarrow> TypeError s1
            | Some w \<Rightarrow>
                (case hooks (heap s1 w) of
                   None \<Rightarrow> TypeError s1
                 | Some hs \<Rightarrow>
                     if hookIndex s1 < length hs
                     then let h = hs ! hookIndex s1
                          in Ok (s1\<lparr>hheap := (hheap s1)(h := (hheap s1 h)\<lparr>cleanup := Some c\<rparr>)\<rparr>)
                     else TypeError s1))
       | _ \<Rightarrow> Ok s1)"

fun runEffects :: "user \<Rightarrow> fn list \<Rightarrow> state \<Rightarrow> state result" where
  "runEffects u [] s = Ok s"
| "runEffects u (e # es) s = rbind (runEffect u e s) (runEffects u es)"

text \<open>\<open>commitRoot\<close> reads the variables \<open>wipRoot\<close> and \<open>deletions\<close> anew in each of
  its statements: a callback that called a setter or \<open>render\<close> has replaced them.\<close>

definition commitRoot :: "user \<Rightarrow> nat \<Rightarrow> state \<Rightarrow> state result" where
  "commitRoot u n s =
     (case wipRoot s of
        None \<Rightarrow> TypeError s
      | Some r \<Rightarrow>
          (case cleanups (heap s r) of
             None \<Rightarrow> TypeError s
           | Some cs \<Rightarrow>
               rbind (runCleanups u cs s) (\<lambda>s1.
                 case deletions s1 of
                   None \<Rightarrow> TypeError s1
                 | Some ds \<Rightarrow>
                     rbind (commitDeletions n ds s1) (\<lambda>s2.
                       case wipRoot s2 of
                         None \<Rightarrow> TypeError s2
                       | Some r2 \<Rightarrow>
                           rbind (commitWork n (child (heap s2 r2)) s2) (\<lambda>s3.
                             case wipRoot s3 of
                               None \<Rightarrow> TypeError s3
                             | Some r3 \<Rightarrow>
                                 (case effects (heap s3 r3) of
                                    None \<Rightarrow> TypeError s3
                                  | Some es \<Rightarrow>
                                      rbind (runEffects u es s3) (\<lambda>s4.
                                        Ok (s4\<lparr>currentRoot := wipRoot s4, wipRoot := None\<rparr>))))))))"

section \<open>Work scheduler\<close>

definition updateFunctionComponent :: "user \<Rightarrow> nat \<Rightarrow> ref \<Rightarrow> state \<Rightarrow> state result" where
  "updateFunctionComponent u n fiber s =
     (let s1 = s\<lparr>wipFiber := Some fiber, hookIndex := 0,
                 heap := (heap s)(fiber := (heap s fiber)\<lparr>hooks := Some [], effects := Some [], cleanups := Some []\<rparr>)\<rparr>
      in case ftype (heap s1 fiber) of
           TFn f \<Rightarrow>
             rbind (run_prog u (component u f (fprops (heap s1 fiber))) s1)
               (\<lambda>(e, s2). reconcileChildren u n fiber [e] s2)
         | _ \<Rightarrow> TypeError s1)"

definition updateHostComponent :: "user \<Rightarrow> nat \<Rightarrow> ref \<Rightarrow> state \<Rightarrow> state result" where
  "updateHostComponent u n fiber s =
     (let s1 = (case fdom (heap s fiber) of
                  Some d \<Rightarrow> s
                | None \<Rightarrow> (case createDom u fiber s of
                             (d, s') \<Rightarrow> s'\<lparr>heap := (heap s')(fiber := (heap s' fiber)\<lparr>fdom := Some d\<rparr>)\<rparr>))
      in reconcileChildren u n fiber (children (fprops (heap s1 fiber))) s1)"

text \<open>The loop \<open>while (nextFiber) { if (nextFiber.sibling) return nextFiber.sibling;
  nextFiber = nextFiber.parent }\<close>; falling out of it returns \<open>undefined\<close>.\<close>

fun nextSibling :: "nat \<Rightarrow> ref option \<Rightarrow> state \<Rightarrow> ref option result" where
  "nextSibling 0 nextFiber s = OutOfFuel"
| "nextSibling (Suc n) None s = Ok None"
| "nextSibling (Suc n) (Some f) s =
     (case sibling (heap s f) of
        Some sb \<Rightarrow> Ok (Some sb)
      | None \<Rightarrow> nextSibling n (parent (heap s f)) s)"

definition isFunction :: "jtype \<Rightarrow> bool" where
  "isFunction t = (case t of TFn f \<Rightarrow> True | _ \<Rightarrow> False)"

definition performUnitOfWork :: "user \<Rightarrow> nat \<Rightarrow> ref \<Rightarrow> state \<Rightarrow> (ref option \<times> state) result" where
  "performUnitOfWork u n fiber s =
     rbind (if isFunction (ftype (heap s fiber)) then updateFunctionComponent u n fiber s
            else updateHostComponent u n fiber s) (\<lambda>s1.
     (case child (heap s1 fiber) of
        Some c \<Rightarrow> Ok (Some c, s1)
      | None \<Rightarrow> rbind (nextSibling n (Some fiber) s1) (\<lambda>nx. Ok (nx, s1))))"

text \<open>The deadline of one idle callback is the list of answers \<open>timeRemaining()\<close> gives
  during it; when the list is used up the slice has expired (it answers 0). \<open>n\<close> is the
  fuel of the loops inside one unit of work.\<close>

fun work_while :: "user \<Rightarrow> nat \<Rightarrow> real list \<Rightarrow> state \<Rightarrow> state result" where
  "work_while u n deadline s =
     (case nextUnitOfWork s of
        None \<Rightarrow> Ok s
      | Some f \<Rightarrow>
          rbind (performUnitOfWork u n f s) (\<lambda>(nx, s1).
            (let s2 = s1\<lparr>nextUnitOfWork := nx\<rparr> in
             case deadline of
               [] \<Rightarrow> Ok s2
             | t # rest \<Rightarrow> if t < 1 then Ok s2 else work_while u n rest s2)))"

definition workLoop :: "user \<Rightarrow> nat \<Rightarrow> real list \<Rightarrow> state \<Rightarrow> state result" where
  "workLoop u n deadline s =
     rbind (work_while u n deadline s) (\<lambda>s1.
       if nextUnitOfWork s1 = None \<and> wipRoot s1 \<noteq> None then commitRoot u n s1 else Ok s1)"

text \<open>\<open>requestIdleCallback(workLoop)\<close> at the end of \<open>workLoop\<close>: the host calls it again
  with the next deadline. An exception leaves \<open>workLoop\<close> before it re-registers.\<close>

fun idle_callbacks :: "user \<Rightarrow> nat \<Rightarrow> real list list \<Rightarrow> state \<Rightarrow> state result" where
  "idle_callbacks u n [] s = Ok s"
| "idle_callbacks u n (deadline # rest) s = rbind (workLoop u n deadline s) (idle_callbacks u n rest)"

section \<open>Export\<close>

text \<open>The functions declared at the top level of the module, and the object literal
  \<open>export const Loush = { createElement, render, useState }\<close> as its keys with the
  functions they hold.\<close>

datatype module_function =
    F_createElement | F_createTextElement | F_createDom | F_updateDom | F_commitRoot
  | F_commitWork | F_commitDeletion | F_render | F_workLoop | F_performUnitOfWork
  | F_updateFunctionComponent | F_useEffect | F_useState | F_updateHostComponent
  | F_reconcileChildren

definition Loush :: "(string \<times> module_function) list" where
  "Loush = [(''createElement'', F_createElement), (''render'', F_render), (''useState'', F_useState)]"

text \<open>The module's variables when it is loaded, with empty stores.\<close>

definition init_state :: state where
  "init_state =
     \<lparr>nextUnitOfWork = None, currentRoot = None, wipRoot = None, deletions = None,
      wipFiber = None, hookIndex = 0,
      heap = (\<lambda>r. root_fiber \<lparr>attrs = [], children = []\<rparr> None None), nxt = 0,
      hheap = (\<lambda>h. effect_hook None), hnxt = 0, nodes = 0, trace = []\<rparr>"

section \<open>Vocabulary of the properties\<close>


text \<open>The operations that change the host tree or a host node.\<close>

definition is_mutation :: "event \<Rightarrow> bool" where
  "is_mutation e =
     (case e of
        AppendChild p c \<Rightarrow> True
      | RemoveChild p c \<Rightarrow> True
      | SetProp d k v \<Rightarrow> True
      | AddListener d t v \<Rightarrow> True
      | RemoveListener d t v \<Rightarrow> True
      | _ \<Rightarrow> False)"




text \<open>\<open>rs\<close> is the chain of fibers reached from \<open>x\<close> through \<open>sibling\<close> up to \<open>null\<close>.\<close>

fun is_chain :: "state \<Rightarrow> ref option \<Rightarrow> ref list \<Rightarrow> bool" where
  "is_chain s x [] = (x = None)"
| "is_chain s x (r # rs) = (x = Some r \<and> is_chain s (sibling (heap s r)) rs)"

text \<open>The old fibers of the chain \<open>rs\<close>, which starts at position \<open>index\<close>, that are not
  matched by an element of the same type at their position.\<close>

fun unmatched :: "user \<Rightarrow> state \<Rightarrow> element option list \<Rightarrow> nat \<Rightarrow> ref list \<Rightarrow> ref list" where
  "unmatched u s els index [] = []"
| "unmatched u s els index (ol # rs) =
     (if sameType u s (Some ol) (element_at els index) then [] else [ol]) @ unmatched u s els (Suc index) rs"

text \<open>The stores the engine can be in: the module's initial state in a document that
  already has \<open>d\<close> host nodes; then any call of \<open>render\<close>; any unit of work the loop of
  \<open>workLoop\<close> performs; the store on which \<open>updateFunctionComponent\<close> calls the
  component of the next unit, having made its fiber the fiber in progress; any call of a
  setter, returning or throwing; any call of a hook, from a component body or from
  elsewhere; any commit that completes. (An exception inside \<open>workLoop\<close> leaves it before
  it registers itself again, so that no commit follows one.)\<close>

inductive reachable :: "user \<Rightarrow> state \<Rightarrow> bool" for u :: user where
  start: "reachable u (init_state\<lparr>nodes := d\<rparr>)"
| call_render: "reachable u s \<Longrightarrow> reachable u (render element container s)"
| unit_of_work:
    "reachable u s \<Longrightarrow> nextUnitOfWork s = Some f \<Longrightarrow> performUnitOfWork u n f s = Ok (nx, s1)
       \<Longrightarrow> reachable u (s1\<lparr>nextUnitOfWork := nx\<rparr>)"
| enter_component:
    "reachable u s \<Longrightarrow> nextUnitOfWork s = Some f \<Longrightarrow> isFunction (ftype (heap s f))
       \<Longrightarrow> reachable u (s\<lparr>wipFiber := Some f, hookIndex := 0,
             heap := (heap s)(f := (heap s f)\<lparr>hooks := Some [], effects := Some [], cleanups := Some []\<rparr>)\<rparr>)"
| call_setState: "reachable u s \<Longrightarrow> setState h action s = Ok s1 \<Longrightarrow> reachable u s1"
| setState_throws: "reachable u s \<Longrightarrow> setState h action s = TypeError s1 \<Longrightarrow> reachable u s1"
| call_useState: "reachable u s \<Longrightarrow> useState u initial s = Ok (x, s1) \<Longrightarrow> reachable u s1"
| call_useEffect: "reachable u s \<Longrightarrow> useEffect callback deps s = Ok s1 \<Longrightarrow> reachable u s1"
| commit: "reachable u s \<Longrightarrow> commitRoot u n s = Ok s1 \<Longrightarrow> reachable u s1"

text \<open>Only fibers of function components carry \<open>cleanups\<close> or \<open>effects\<close>, and the
  pending root is an allocated fiber without a type.\<close>

definition lists_inv :: "state \<Rightarrow> bool" where
  "lists_inv s =
     ((\<forall>r. cleanups (heap s r) \<noteq> None \<or> effects (heap s r) \<noteq> None \<longrightarrow> isFunction (ftype (heap s r)))
      \<and> (\<forall>r. wipRoot s = Some r \<longrightarrow> r < nxt s \<and> ftype (heap s r) = TUndefined))"






subsection \<open>Example programs and stores\<close>

text \<open>User code whose updater \<open>f\<close> adds \<open>f\<close> to a number; its components render
  nothing and its callbacks do nothing.\<close>

definition adder :: user where
  "adder = \<lparr>component = (\<lambda>f p. Return None), invoke = (\<lambda>f. Return VUndefined),
            applies = (\<lambda>f v. case v of VNum x \<Rightarrow> VNum (x + real f) | _ \<Rightarrow> v),
            toString = (\<lambda>f. ''function App() {}'')\<rparr>"


definition host_el :: "string \<Rightarrow> element option list \<Rightarrow> element" where
  "host_el t cs = Element (TStr t) [] cs"

text \<open>A component with a state hook and an effect hook: \<open>const [st] = useState(1);
  useEffect(cb8, [st]); return <h1/>\<close>, and the element \<open><App/>\<close>.\<close>

definition effect_app :: user where
  "effect_app =
     \<lparr>component = (\<lambda>f p. UseState (VNum 1) (\<lambda>st h. UseEffect 8 (Some [st]) (Return (Some (host_el ''h1'' []))))),
      invoke = (\<lambda>f. Return VUndefined), applies = (\<lambda>f v. v),
      toString = (\<lambda>f. ''function App() {}'')\<rparr>"

definition app_el :: element where
  "app_el = Element (TFn 0) [] []"











text \<open>Mounting \<open><div><p/><span/><b/></div>\<close> in container 0 of a document with one node:
  the store when the five units of work are done and the commit is due. The root is 0,
  the \<open>div\<close> fiber 1, its children 2, 3, 4; each owns the host node of its own number,
  created and not yet inserted.\<close>

definition host_fiber :: "string \<Rightarrow> element option list \<Rightarrow> node \<Rightarrow> ref \<Rightarrow> ref option \<Rightarrow> ref option \<Rightarrow> fiber" where
  "host_fiber t cs d par ch sib =
     (new_fiber (TStr t) \<lparr>attrs = [], children = cs\<rparr> (Some d) par None PLACEMENT)
       \<lparr>child := ch, sibling := sib\<rparr>"

definition old_div :: element where
  "old_div = host_el ''div'' [Some (host_el ''p'' []), Some (host_el ''span'' []), Some (host_el ''b'' [])]"

definition mounted_div :: state where
  "mounted_div =
     init_state\<lparr>nextUnitOfWork := None, wipRoot := Some 0, deletions := Some [],
                heap := (heap init_state)
                  (0 := (root_fiber \<lparr>attrs = [], children = [Some old_div]\<rparr> (Some 0) None)\<lparr>child := Some 1\<rparr>,
                   1 := host_fiber ''div'' (echildren old_div) 1 0 (Some 2) None,
                   2 := host_fiber ''p'' [] 2 1 None (Some 3),
                   3 := host_fiber ''span'' [] 3 1 None (Some 4),
                   4 := host_fiber ''b'' [] 4 1 None None),
                nxt := 5, nodes := 5,
                trace := [CreateElement 1 (TStr ''div''), CreateElement 2 (TStr ''p''),
                          CreateElement 3 (TStr ''span''), CreateElement 4 (TStr ''b'')]\<rparr>"

text \<open>That tree as the last two statements of a commit would leave it, had one
  completed: the root 0 is the current root and no tree is pending. The trace starts
  afresh here.\<close>

definition committed_state :: state where
  "committed_state =
     init_state\<lparr>currentRoot := Some 0, deletions := Some [],
                heap := (heap init_state)
                  (0 := (root_fiber \<lparr>attrs = [], children = [Some old_div]\<rparr> (Some 0) None)\<lparr>child := Some 1\<rparr>,
                   1 := host_fiber ''div'' (echildren old_div) 1 0 (Some 2) None,
                   2 := host_fiber ''p'' [] 2 1 None (Some 3),
                   3 := host_fiber ''span'' [] 3 1 None (Some 4),
                   4 := host_fiber ''b'' [] 4 1 None None),
                nxt := 5, nodes := 5\<rparr>"

text \<open>The pending tree after \<open>render\<close> of a new \<open>div\<close> with the children \<open>cs\<close> and the
  unit of work of the root: the new root 5 and the \<open>div\<close> fiber 6, whose children are
  to be reconciled next.\<close>

definition diff_state :: "element option list \<Rightarrow> state" where
  "diff_state cs =
     committed_state\<lparr>wipRoot := Some 5, nextUnitOfWork := Some 5,
       heap := (heap committed_state)
         (5 := (root_fiber \<lparr>attrs = [], children = [Some (host_el ''div'' cs)]\<rparr> (Some 0) (Some 0))\<lparr>child := Some 6\<rparr>,
          6 := new_fiber (TStr ''div'') \<lparr>attrs = [], children = cs\<rparr> (Some 1) 5 (Some 1) UPDATE),
       nxt := 7\<rparr>"

text \<open>The committed tree re-rendered as \<open><div><p/></div>\<close>: the store after the three
  units of work of that pass (root 5, \<open>div\<close> 6, \<open>p\<close> 7), with the old \<open>span\<close> and \<open>b\<close>
  fibers 3 and 4 queued for deletion.\<close>

definition new_div :: element where
  "new_div = host_el ''div'' [Some (host_el ''p'' [])]"

definition pending_state :: state where
  "pending_state =
     (diff_state (echildren new_div))\<lparr>nextUnitOfWork := None, deletions := Some [3, 4], nxt := 8,
       heap := (heap (diff_state (echildren new_div)))
         (3 := (heap (diff_state (echildren new_div)) 3)\<lparr>effectTag := Some DELETION\<rparr>,
          4 := (heap (diff_state (echildren new_div)) 4)\<lparr>effectTag := Some DELETION\<rparr>,
          6 := (heap (diff_state (echildren new_div)) 6)\<lparr>child := Some 7\<rparr>,
          7 := new_fiber (TStr ''p'') \<lparr>attrs = [], children = []\<rparr> (Some 2) 6 (Some 2) UPDATE)\<rparr>"

section \<open>Properties\<close>

lemma rbind_simps [simp]:
  "rbind (Ok x) f = f x" "rbind (TypeError s) f = TypeError s" "rbind OutOfFuel f = OutOfFuel"
  by (simp_all add: rbind_def)

lemma rbind_Ok_iff: "rbind r f = Ok y \<longleftrightarrow> (\<exists>x. r = Ok x \<and> f x = Ok y)"
  by (cases r) simp_all

lemma emit_Nil [simp]: "emit [] s = s"
  by (simp add: emit_def)

lemmas tree_simps = mounted_div_def committed_state_def diff_state_def host_fiber_def host_el_def
  old_div_def init_state_def root_fiber_def new_fiber_def eprops_def

lemmas reconcile_simps = reconcile_iter_def make_fiber_def mark_deletion_def link_fiber_def
  sameType_def loose_eq_def element_at_def alloc_def Let_def

lemmas unit_simps = performUnitOfWork_def updateHostComponent_def updateFunctionComponent_def
  reconcileChildren_def reconcile_simps isFunction_def render_def createDom_def updateDom_def
  keys_def


lemmas hook_simps = useState_def useEffect_def hasChanged_def schedule_def push_hook_def oldHook_def
  state_hook_def effect_hook_def

lemma emit_fields [simp]:
  "heap (emit m s) = heap s" "wipRoot (emit m s) = wipRoot s" "deletions (emit m s) = deletions s"
  "currentRoot (emit m s) = currentRoot s" "trace (emit m s) = trace s @ m"
  "wipFiber (emit m s) = wipFiber s" "hookIndex (emit m s) = hookIndex s" "hheap (emit m s) = hheap s"
  "nextUnitOfWork (emit m s) = nextUnitOfWork s" "nxt (emit m s) = nxt s" "hnxt (emit m s) = hnxt s"
  "nodes (emit m s) = nodes s"
  by (simp_all add: emit_def)

subsection \<open>Host adapter: the four passes of updateDom\<close>










subsection \<open>The exported object\<close>

text \<open>
  Claim C10. The exported object \<open>Loush\<close> has exactly the keys \<open>createElement\<close>,
  \<open>render\<close> and \<open>useState\<close>, holding the functions of those names; \<open>useState\<close> is a
  member, and \<open>useEffect\<close>, though declared in the module, is under no key of it.
\<close>

theorem Loush_export_surface:
  "map fst Loush = [''createElement'', ''render'', ''useState'']
   \<and> map snd Loush = [F_createElement, F_render, F_useState]
   \<and> (''useState'', F_useState) \<in> set Loush
   \<and> ''useEffect'' \<notin> fst ` set Loush \<and> F_useEffect \<notin> snd ` set Loush"
  by (simp add: Loush_def)

subsection \<open>Hook state store: useState\<close>










subsection \<open>The stores the engine reaches\<close>

lemma lists_inv_root:
  "lists_inv s \<Longrightarrow> wipRoot s = Some r \<Longrightarrow> cleanups (heap s r) = None \<and> effects (heap s r) = None"
  by (auto simp: lists_inv_def isFunction_def)

lemma inv_init: "lists_inv (init_state\<lparr>nodes := d\<rparr>)"
  by (simp add: lists_inv_def init_state_def root_fiber_def)

lemma inv_render: "lists_inv s \<Longrightarrow> lists_inv (render e c s)"
  by (auto simp: lists_inv_def render_def alloc_def root_fiber_def isFunction_def)

lemma inv_setState:
  "lists_inv s \<Longrightarrow> setState h a s = Ok s' \<or> setState h a s = TypeError s' \<Longrightarrow> lists_inv s'"
  by (auto simp: lists_inv_def setState_def alloc_def root_fiber_def isFunction_def Let_def
      split: option.splits)

lemma inv_push_hook: "lists_inv s \<Longrightarrow> push_hook w hk s = Ok (h, s') \<Longrightarrow> lists_inv s'"
  by (auto simp: lists_inv_def push_hook_def Let_def split: option.splits)

lemma inv_useState: "lists_inv s \<Longrightarrow> useState u i s = Ok (x, s') \<Longrightarrow> lists_inv s'"
  by (auto simp: useState_def Let_def rbind_Ok_iff split: option.splits dest: inv_push_hook)

lemma inv_schedule: "lists_inv s \<Longrightarrow> schedule w old cb s = Ok s' \<Longrightarrow> lists_inv s'"
  by (auto simp: lists_inv_def schedule_def rbind_Ok_iff split: option.splits)

lemma inv_useEffect: "lists_inv s \<Longrightarrow> useEffect cb deps s = Ok s' \<Longrightarrow> lists_inv s'"
  by (auto simp: useEffect_def Let_def rbind_Ok_iff split: option.splits if_splits
      dest: inv_push_hook inv_schedule)

lemma inv_run_prog: "lists_inv s \<Longrightarrow> run_prog u p s = Ok (e, s') \<Longrightarrow> lists_inv s'"
proof (induction p arbitrary: s)
  case (Return x)
  then show ?case by simp
next
  case Throw
  then show ?case by simp
next
  case (UseState i k)
  from UseState.prems obtain st h s1 where us: "useState u i s = Ok ((st, h), s1)"
    and run: "run_prog u (k st h) s1 = Ok (e, s')"
    by (auto split: result.splits)
  have "k st \<in> range k" "k st h \<in> range (k st)" by auto
  moreover from UseState.prems(1) us have "lists_inv s1" by (rule inv_useState)
  ultimately show ?case using run by (rule UseState.IH)
next
  case (UseEffect cb deps k)
  then show ?case by (auto split: result.splits dest: inv_useEffect)
next
  case (CallSetState h a k)
  then show ?case by (auto split: result.splits dest: inv_setState)
next
  case (CallRender el c k)
  then show ?case by (auto dest: inv_render)
qed

lemma inv_reconcile_iter:
  "lists_inv s \<Longrightarrow> reconcile_iter u w els i old prev s = Ok (old', nf, s') \<Longrightarrow> lists_inv s'"
  by (auto simp: lists_inv_def reconcile_iter_def make_fiber_def mark_deletion_def link_fiber_def
      alloc_def new_fiber_def Let_def rbind_Ok_iff isFunction_def
      split: option.splits if_splits prod.splits)

lemma inv_reconcile_loop:
  "lists_inv s \<Longrightarrow> reconcile_loop u n w els i old prev s = Ok s' \<Longrightarrow> lists_inv s'"
proof (induction n arbitrary: s i old prev)
  case 0
  then show ?case by simp
next
  case (Suc n)
  show ?case
  proof (cases "i < length els \<or> old \<noteq> None")
    case True
    with Suc.prems obtain old' nf s1 where
      "reconcile_iter u w els i old prev s = Ok (old', nf, s1)"
      "reconcile_loop u n w els (Suc i) old' nf s1 = Ok s'"
      by (auto simp: rbind_Ok_iff)
    with Suc.prems(1) Suc.IH show ?thesis by (blast dest: inv_reconcile_iter)
  next
    case False
    with Suc.prems show ?thesis by simp
  qed
qed

lemma inv_updateHostComponent:
  "lists_inv s \<Longrightarrow> updateHostComponent u n f s = Ok s' \<Longrightarrow> lists_inv s'"
proof -
  assume i: "lists_inv s" and r: "updateHostComponent u n f s = Ok s'"
  let ?s1 = "case fdom (heap s f) of Some d \<Rightarrow> s
     | None \<Rightarrow> (case createDom u f s of (d, s') \<Rightarrow> s'\<lparr>heap := (heap s')(f := (heap s' f)\<lparr>fdom := Some d\<rparr>)\<rparr>)"
  have "lists_inv ?s1"
    using i by (auto simp: lists_inv_def createDom_def emit_def Let_def split: option.splits)
  moreover from r have "reconcile_loop u n f (children (fprops (heap ?s1 f))) 0
      (case alternate (heap ?s1 f) of None \<Rightarrow> None | Some a \<Rightarrow> child (heap ?s1 a)) None ?s1 = Ok s'"
    by (simp add: updateHostComponent_def reconcileChildren_def Let_def)
  ultimately show ?thesis by (rule inv_reconcile_loop)
qed

lemma inv_updateFunctionComponent:
  assumes i: "lists_inv s" and fn: "isFunction (ftype (heap s f))"
    and r: "updateFunctionComponent u n f s = Ok s'"
  shows "lists_inv s'"
proof -
  let ?s1 = "s\<lparr>wipFiber := Some f, hookIndex := 0,
     heap := (heap s)(f := (heap s f)\<lparr>hooks := Some [], effects := Some [], cleanups := Some []\<rparr>)\<rparr>"
  have i1: "lists_inv ?s1"
    using i fn by (auto simp: lists_inv_def isFunction_def)
  from r obtain g e s2 where "run_prog u (component u g (fprops (heap ?s1 f))) ?s1 = Ok (e, s2)"
    and l: "reconcileChildren u n f [e] s2 = Ok s'"
    by (auto simp: updateFunctionComponent_def Let_def rbind_Ok_iff split: jtype.splits)
  with i1 have "lists_inv s2" by (blast dest: inv_run_prog)
  from this l [unfolded reconcileChildren_def] show ?thesis by (rule inv_reconcile_loop)
qed

lemma inv_performUnitOfWork:
  "lists_inv s \<Longrightarrow> performUnitOfWork u n f s = Ok (nx, s') \<Longrightarrow> lists_inv s'"
  by (auto simp: performUnitOfWork_def rbind_Ok_iff split: if_splits option.splits
      dest: inv_updateHostComponent inv_updateFunctionComponent)

lemma commitRoot_throws:
  "\<forall>r. wipRoot s = Some r \<longrightarrow> cleanups (heap s r) = None \<Longrightarrow> commitRoot u n s = TypeError s"
  by (auto simp: commitRoot_def split: option.splits)

lemma reachable_inv: "reachable u s \<Longrightarrow> lists_inv s"
proof (induction rule: reachable.induct)
  case (start d)
  show ?case by (rule inv_init)
next
  case (call_render s element container)
  then show ?case by (simp add: inv_render)
next
  case (unit_of_work s f n nx s1)
  then have "lists_inv s1" by (blast dest: inv_performUnitOfWork)
  then show ?case by (simp add: lists_inv_def)
next
  case (enter_component s f)
  then show ?case by (auto simp: lists_inv_def isFunction_def)
next
  case (call_setState s h action s1)
  then show ?case by (blast dest: inv_setState)
next
  case (setState_throws s h action s1)
  then show ?case by (blast dest: inv_setState)
next
  case (call_useState s initial x s1)
  then show ?case by (blast dest: inv_useState)
next
  case (call_useEffect s callback deps s1)
  then show ?case by (blast dest: inv_useEffect)
next
  case (commit s n s1)
  from commit.IH have "commitRoot u n s = TypeError s"
    by (intro commitRoot_throws) (auto dest: lists_inv_root)
  with commit.hyps show ?case by simp
qed


lemma reachable_work_while:
  "reachable u s \<Longrightarrow> work_while u n d s = Ok s' \<Longrightarrow> reachable u s'"
proof (induction d arbitrary: s)
  case Nil
  show ?case
  proof (cases "nextUnitOfWork s")
    case None
    with Nil show ?thesis by simp
  next
    case (Some f)
    with Nil.prems(2) obtain nx s1 where "performUnitOfWork u n f s = Ok (nx, s1)"
      "s' = s1\<lparr>nextUnitOfWork := nx\<rparr>"
      by (auto simp: rbind_Ok_iff Let_def)
    with Nil.prems(1) Some show ?thesis by (auto intro: reachable.unit_of_work)
  qed
next
  case (Cons t rest)
  show ?case
  proof (cases "nextUnitOfWork s")
    case None
    with Cons.prems show ?thesis by simp
  next
    case (Some f)
    with Cons.prems(2) obtain nx s1 where p: "performUnitOfWork u n f s = Ok (nx, s1)"
      and r: "(if t < 1 then Ok (s1\<lparr>nextUnitOfWork := nx\<rparr>)
               else work_while u n rest (s1\<lparr>nextUnitOfWork := nx\<rparr>)) = Ok s'"
      by (auto simp: rbind_Ok_iff Let_def)
    from Cons.prems(1) Some p have re: "reachable u (s1\<lparr>nextUnitOfWork := nx\<rparr>)"
      by (rule reachable.unit_of_work)
    show ?thesis
    proof (cases "t < 1")
      case True
      with r re show ?thesis by simp
    next
      case False
      with r have "work_while u n rest (s1\<lparr>nextUnitOfWork := nx\<rparr>) = Ok s'" by simp
      with re show ?thesis by (rule Cons.IH)
    qed
  qed
qed



















subsection \<open>Hook state store: useEffect\<close>




text \<open>On a position that has a prior record, which takes a completed commit, a call
  needs a dependency list: \<open>dependencies.some\<close> is read unguarded, and the call without
  a list throws, having scheduled nothing.\<close>

lemma useEffect_prior_record_needs_list:
  "wipFiber s = Some w \<Longrightarrow> oldHook s w = Some oh \<Longrightarrow> useEffect cb None s = TypeError s"
  by (simp add: useEffect_def hasChanged_def)

subsection \<open>Diff engine: one position\<close>

text \<open>The example store \<open>committed_state\<close> is the mounted tree of \<open>mounted_div\<close> with
  the two assignments made that end \<open>commitRoot\<close>; and \<open>diff_state\<close> is what the
  engine itself builds from it.\<close>

lemma committed_state_mounted:
  "committed_state = mounted_div\<lparr>currentRoot := Some 0, wipRoot := None, trace := []\<rparr>"
  by (simp add: committed_state_def mounted_div_def init_state_def)







subsection \<open>Diff engine: the loop\<close>

lemma is_chain_cong:
  "\<forall>r \<in> set rs. sibling (heap s' r) = sibling (heap s r) \<Longrightarrow> is_chain s' x rs = is_chain s x rs"
  by (induction rs arbitrary: x) auto

lemma unmatched_cong:
  "\<forall>r \<in> set rs. ftype (heap s' r) = ftype (heap s r) \<Longrightarrow> unmatched u s' els i rs = unmatched u s els i rs"
  by (induction rs arbitrary: i) (auto simp: sameType_def split: option.splits)

lemma surplus_unmatched:
  "length els \<le> i \<Longrightarrow> unmatched u s els i rs = rs"
  by (induction rs arbitrary: i) (auto simp: sameType_def element_at_def)

lemma reconcile_iter_ok:
  assumes old: "\<forall>ol. oldFiber = Some ol \<longrightarrow> ol < N"
    and N: "N \<le> nxt s"
    and prev: "\<forall>p. prevSibling = Some p \<longrightarrow> N \<le> p"
    and link: "index = 0 \<or> element_at els index = None \<or> prevSibling \<noteq> None"
    and dl: "deletions s = Some ds"
  shows "\<exists>s1. reconcile_iter u w els index oldFiber prevSibling s
            = Ok (case oldFiber of None \<Rightarrow> None | Some ol \<Rightarrow> sibling (heap s ol),
                  if element_at els index = None then None else Some (nxt s), s1)
         \<and> nxt s1 = (if element_at els index = None then nxt s else Suc (nxt s))
         \<and> deletions s1 = Some (ds @ (case oldFiber of None \<Rightarrow> []
              | Some ol \<Rightarrow> if sameType u s oldFiber (element_at els index) then [] else [ol]))
         \<and> (\<forall>r < N. ftype (heap s1 r) = ftype (heap s r))
         \<and> (\<forall>r < N. sibling (heap s1 r) = sibling (heap s r))
         \<and> (\<forall>r < N. effectTag (heap s r) = Some DELETION \<longrightarrow> effectTag (heap s1 r) = Some DELETION)
         \<and> (\<forall>ol. oldFiber = Some ol \<and> \<not> sameType u s oldFiber (element_at els index)
               \<longrightarrow> effectTag (heap s1 ol) = Some DELETION)"
  using assms
  by (cases oldFiber; cases "element_at els index"; cases prevSibling)
     (auto simp: reconcile_iter_def make_fiber_def mark_deletion_def link_fiber_def sameType_def
        alloc_def Let_def)

lemma reconcile_loop_runs:
  assumes "is_chain s oldFiber rest"
    and "\<forall>r \<in> set rest. r < N"
    and "N \<le> nxt s"
    and "\<forall>p. prevSibling = Some p \<longrightarrow> N \<le> p"
    and "\<forall>j. index \<le> j \<and> j < length els \<longrightarrow> els ! j \<noteq> None"
    and "index = 0 \<or> length els \<le> index \<or> prevSibling \<noteq> None"
    and "deletions s = Some ds"
  shows "(n \<le> max (length els - index) (length rest) \<longrightarrow>
            reconcile_loop u n w els index oldFiber prevSibling s = OutOfFuel)
       \<and> (max (length els - index) (length rest) < n \<longrightarrow>
            (\<exists>s'. reconcile_loop u n w els index oldFiber prevSibling s = Ok s'
                \<and> nxt s' = nxt s + (length els - index)
                \<and> deletions s' = Some (ds @ unmatched u s els index rest)
                \<and> (\<forall>r < N. ftype (heap s' r) = ftype (heap s r))
                \<and> (\<forall>r < N. effectTag (heap s r) = Some DELETION \<longrightarrow> effectTag (heap s' r) = Some DELETION)
                \<and> (\<forall>ol \<in> set (unmatched u s els index rest). effectTag (heap s' ol) = Some DELETION)))"
  using assms
proof (induction n arbitrary: s index oldFiber prevSibling rest ds)
  case 0
  then show ?case by simp
next
  case (Suc n)
  show ?case
  proof (cases "index < length els \<or> oldFiber \<noteq> None")
    case False
    with Suc.prems(1) have "rest = []" by (cases rest) auto
    with False show ?thesis using Suc.prems(7) by simp
  next
    case True
    let ?el = "element_at els index"
    let ?o' = "case oldFiber of None \<Rightarrow> None | Some ol \<Rightarrow> sibling (heap s ol)"
    let ?nf = "if ?el = None then None else Some (nxt s)"
    let ?d = "case oldFiber of None \<Rightarrow> [] | Some ol \<Rightarrow> if sameType u s oldFiber ?el then [] else [ol]"
    have el: "?el = None \<longleftrightarrow> length els \<le> index"
      using Suc.prems(5) by (auto simp: element_at_def)
    have old: "\<forall>ol. oldFiber = Some ol \<longrightarrow> ol < N"
      using Suc.prems(1,2) by (cases rest) auto
    have link: "index = 0 \<or> ?el = None \<or> prevSibling \<noteq> None"
      using Suc.prems(6) el by auto
    from reconcile_iter_ok [OF old Suc.prems(3) Suc.prems(4) link Suc.prems(7), of u w]
    obtain s1 where it: "reconcile_iter u w els index oldFiber prevSibling s = Ok (?o', ?nf, s1)"
      and nx: "nxt s1 = (if ?el = None then nxt s else Suc (nxt s))"
      and dl: "deletions s1 = Some (ds @ ?d)"
      and ft: "\<forall>r < N. ftype (heap s1 r) = ftype (heap s r)"
      and sb: "\<forall>r < N. sibling (heap s1 r) = sibling (heap s r)"
      and keep: "\<forall>r < N. effectTag (heap s r) = Some DELETION \<longrightarrow> effectTag (heap s1 r) = Some DELETION"
      and mark: "\<forall>ol. oldFiber = Some ol \<and> \<not> sameType u s oldFiber ?el \<longrightarrow> effectTag (heap s1 ol) = Some DELETION"
      by blast
    let ?rest' = "tl rest"
    have set': "\<forall>r \<in> set ?rest'. r < N"
      using Suc.prems(2) by (cases rest) auto
    have chain': "is_chain s1 ?o' ?rest'"
    proof -
      have "is_chain s ?o' ?rest'" using Suc.prems(1) by (cases rest) auto
      moreover have "\<forall>r \<in> set ?rest'. sibling (heap s1 r) = sibling (heap s r)"
        using set' sb by blast
      ultimately show ?thesis using is_chain_cong [of ?rest' s1 s ?o'] by simp
    qed
    have N': "N \<le> nxt s1" using nx Suc.prems(3) by (simp split: if_splits)
    have prev': "\<forall>p. ?nf = Some p \<longrightarrow> N \<le> p" using Suc.prems(3) by (simp split: if_splits)
    have els': "\<forall>j. Suc index \<le> j \<and> j < length els \<longrightarrow> els ! j \<noteq> None"
      using Suc.prems(5) by auto
    have link': "Suc index = 0 \<or> length els \<le> Suc index \<or> ?nf \<noteq> None"
      using el by auto
    note IH = Suc.IH [OF chain' set' N' prev' els' link' dl, of ]
    have loop: "reconcile_loop u (Suc n) w els index oldFiber prevSibling s
                  = reconcile_loop u n w els (Suc index) ?o' ?nf s1"
      using True it by simp
    have m: "max (length els - index) (length rest) = Suc (max (length els - Suc index) (length ?rest'))"
      using True Suc.prems(1) by (cases rest) auto
    have un: "unmatched u s els index rest = ?d @ unmatched u s1 els (Suc index) ?rest'"
    proof -
      have "unmatched u s1 els (Suc index) ?rest' = unmatched u s els (Suc index) ?rest'"
        using unmatched_cong [of ?rest' s1 s u els "Suc index"] set' ft by blast
      then show ?thesis using Suc.prems(1) by (cases rest) auto
    qed
    have nxt_sum: "(if ?el = None then nxt s else Suc (nxt s)) + (length els - Suc index)
                   = nxt s + (length els - index)"
      using el by auto
    show ?thesis
    proof (intro conjI impI)
      assume "Suc n \<le> max (length els - index) (length rest)"
      with m have "n \<le> max (length els - Suc index) (length ?rest')" by simp
      with IH loop show "reconcile_loop u (Suc n) w els index oldFiber prevSibling s = OutOfFuel"
        by simp
    next
      assume "max (length els - index) (length rest) < Suc n"
      with m have "max (length els - Suc index) (length ?rest') < n" by simp
      with IH obtain s' where s': "reconcile_loop u n w els (Suc index) ?o' ?nf s1 = Ok s'"
        "nxt s' = nxt s1 + (length els - Suc index)"
        "deletions s' = Some ((ds @ ?d) @ unmatched u s1 els (Suc index) ?rest')"
        "\<forall>r < N. ftype (heap s' r) = ftype (heap s1 r)"
        "\<forall>r < N. effectTag (heap s1 r) = Some DELETION \<longrightarrow> effectTag (heap s' r) = Some DELETION"
        "\<forall>ol \<in> set (unmatched u s1 els (Suc index) ?rest'). effectTag (heap s' ol) = Some DELETION"
        by blast
      have d_marked: "\<forall>ol \<in> set ?d. effectTag (heap s' ol) = Some DELETION"
      proof
        fix ol assume "ol \<in> set ?d"
        then have o: "oldFiber = Some ol" "\<not> sameType u s oldFiber ?el"
          by (auto split: option.splits if_splits)
        with mark have "effectTag (heap s1 ol) = Some DELETION" by blast
        moreover from o old have "ol < N" by blast
        ultimately show "effectTag (heap s' ol) = Some DELETION" using s'(5) by blast
      qed
      have "nxt s' = nxt s + (length els - index)" using s'(2) nx nxt_sum by simp
      moreover have "deletions s' = Some (ds @ unmatched u s els index rest)" using s'(3) un by simp
      moreover have "\<forall>r < N. ftype (heap s' r) = ftype (heap s r)" using s'(4) ft by simp
      moreover have "\<forall>r < N. effectTag (heap s r) = Some DELETION \<longrightarrow> effectTag (heap s' r) = Some DELETION"
        using s'(5) keep by blast
      moreover have "\<forall>ol \<in> set (unmatched u s els index rest). effectTag (heap s' ol) = Some DELETION"
        using un d_marked s'(6) by auto
      ultimately show "\<exists>s'. reconcile_loop u (Suc n) w els index oldFiber prevSibling s = Ok s'
                \<and> nxt s' = nxt s + (length els - index)
                \<and> deletions s' = Some (ds @ unmatched u s els index rest)
                \<and> (\<forall>r < N. ftype (heap s' r) = ftype (heap s r))
                \<and> (\<forall>r < N. effectTag (heap s r) = Some DELETION \<longrightarrow> effectTag (heap s' r) = Some DELETION)
                \<and> (\<forall>ol \<in> set (unmatched u s els index rest). effectTag (heap s' ol) = Some DELETION)"
        using loop s'(1) by simp
    qed
  qed
qed

lemma surplus_subset_unmatched:
  "set (drop (length els - i) rs) \<subseteq> set (unmatched u s els i rs)"
proof (induction rs arbitrary: i)
  case Nil
  then show ?case by simp
next
  case (Cons r rs)
  show ?case
  proof (cases "length els \<le> i")
    case True
    then show ?thesis using surplus_unmatched [of els i u s "r # rs"] by simp
  next
    case False
    then have "length els - i = Suc (length els - Suc i)" by simp
    then have "drop (length els - i) (r # rs) = drop (length els - Suc i) rs" by simp
    with Cons.IH [of "Suc i"] show ?thesis by auto
  qed
qed

text \<open>
  Claim C8. Let the old children of the parent (\<open>alternate.child\<close> and its siblings) be
  a finite chain \<open>olds\<close> of allocated fibers, \<open>els\<close> a sequence of elements, and
  \<open>deletions\<close> an array. Then the loop of \<open>reconcileChildren\<close> makes exactly
  \<open>max (length els) (length olds)\<close> passes and returns: that much fuel is not enough,
  any more is. It allocates one fiber for each element, appends to \<open>deletions\<close> exactly
  the old fibers unmatched at their position, among them every old fiber past the last
  element, and each of them is tagged \<open>DELETION\<close>.
\<close>

theorem reconcileChildren_terminates:
  assumes chain: "is_chain s (case alternate (heap s w) of None \<Rightarrow> None | Some a \<Rightarrow> child (heap s a)) olds"
    and allocated: "\<forall>r \<in> set olds. r < nxt s"
    and elements: "\<forall>e \<in> set els. e \<noteq> None"
    and dl: "deletions s = Some ds"
  shows "(reconcileChildren u n w els s = OutOfFuel \<longleftrightarrow> n \<le> max (length els) (length olds))
       \<and> (max (length els) (length olds) < n \<longrightarrow>
            (\<exists>s'. reconcileChildren u n w els s = Ok s'
                \<and> nxt s' = nxt s + length els
                \<and> deletions s' = Some (ds @ unmatched u s els 0 olds)
                \<and> set (drop (length els) olds) \<subseteq> set (unmatched u s els 0 olds)
                \<and> (\<forall>ol \<in> set (unmatched u s els 0 olds). effectTag (heap s' ol) = Some DELETION)))"
proof -
  have e: "\<forall>j. 0 \<le> j \<and> j < length els \<longrightarrow> els ! j \<noteq> None"
    using elements by auto
  have p: "\<forall>p. (None :: ref option) = Some p \<longrightarrow> nxt s \<le> p" by simp
  have l: "(0 :: nat) = 0 \<or> length els \<le> 0 \<or> (None :: ref option) \<noteq> None" by simp
  note run = reconcile_loop_runs [OF chain allocated order_refl p e l dl, of n u w,
      folded reconcileChildren_def]
  have sub: "set (drop (length els) olds) \<subseteq> set (unmatched u s els 0 olds)"
    using surplus_subset_unmatched [of els 0 olds u s] by simp
  show ?thesis
  proof (cases "n \<le> max (length els) (length olds)")
    case True
    with run have "reconcileChildren u n w els s = OutOfFuel" by simp
    moreover from True have "\<not> max (length els) (length olds) < n" by (simp only: not_less)
    ultimately show ?thesis using True by blast
  next
    case False
    then have m: "max (length els) (length olds) < n" by (simp only: not_le)
    with run obtain s' where s': "reconcileChildren u n w els s = Ok s'"
      "nxt s' = nxt s + length els" "deletions s' = Some (ds @ unmatched u s els 0 olds)"
      "\<forall>ol \<in> set (unmatched u s els 0 olds). effectTag (heap s' ol) = Some DELETION"
      by auto
    from s'(1) have "reconcileChildren u n w els s \<noteq> OutOfFuel" by simp
    with False s' sub show ?thesis by blast
  qed
qed

lemmas loop_simps = reconcileChildren_def reconcile_simps tree_simps

theorem reconcileChildren_terminates_witness:
  "is_chain (diff_state [Some (host_el ''p'' [])])
      (case alternate (heap (diff_state [Some (host_el ''p'' [])]) 6) of
         None \<Rightarrow> None | Some a \<Rightarrow> child (heap (diff_state [Some (host_el ''p'' [])]) a)) [2, 3, 4]
   \<and> reconcileChildren adder 3 6 [Some (host_el ''p'' [])] (diff_state [Some (host_el ''p'' [])]) = OutOfFuel
   \<and> (\<exists>s'. reconcileChildren adder 4 6 [Some (host_el ''p'' [])] (diff_state [Some (host_el ''p'' [])]) = Ok s'
          \<and> nxt s' = 8 \<and> deletions s' = Some [3, 4]
          \<and> effectTag (heap s' 3) = Some DELETION \<and> effectTag (heap s' 4) = Some DELETION)"
proof -
  let ?E = "[Some (host_el ''p'' [])]"
  let ?S = "diff_state ?E"
  have c: "is_chain ?S (case alternate (heap ?S 6) of None \<Rightarrow> None | Some a \<Rightarrow> child (heap ?S a)) [2, 3, 4]"
    by (simp add: tree_simps)
  have a: "\<forall>r \<in> set [2, 3, 4]. r < nxt ?S" by (simp add: tree_simps)
  have e: "\<forall>e \<in> set ?E. e \<noteq> None" by simp
  have d: "deletions ?S = Some []" by (simp add: tree_simps)
  have u: "unmatched adder ?S ?E 0 [2, 3, 4] = [3, 4]"
    by (simp add: sameType_def loose_eq_def element_at_def tree_simps)
  note t3 = reconcileChildren_terminates [OF c a e d, of adder 3]
  note t4 = reconcileChildren_terminates [OF c a e d, of adder 4, unfolded u]
  from t3 have o: "reconcileChildren adder 3 6 ?E ?S = OutOfFuel" by simp
  from t4 have "\<exists>s'. reconcileChildren adder 4 6 ?E ?S = Ok s'
          \<and> nxt s' = nxt ?S + 1 \<and> deletions s' = Some [3, 4]
          \<and> effectTag (heap s' 3) = Some DELETION \<and> effectTag (heap s' 4) = Some DELETION"
    by simp
  moreover have "nxt ?S + 1 = 8" by (simp add: tree_simps)
  ultimately have r: "\<exists>s'. reconcileChildren adder 4 6 ?E ?S = Ok s'
          \<and> nxt s' = 8 \<and> deletions s' = Some [3, 4]
          \<and> effectTag (heap s' 3) = Some DELETION \<and> effectTag (heap s' 4) = Some DELETION"
    by simp
  from c o r show ?thesis by blast
qed

text \<open>A \<open>null\<close> child followed by an element is not an element sequence: the loop makes
  no fiber for it, leaves \<open>prevSibling\<close> \<open>null\<close>, and throws at the next position.\<close>

lemma reconcileChildren_null_child:
  "\<exists>s'. reconcileChildren u n 6 [None, Some (host_el ''p'' [])] (diff_state [None, Some (host_el ''p'' [])])
          = (if n < 2 then OutOfFuel else TypeError s')"
proof (cases n)
  case 0
  then show ?thesis by (simp add: reconcileChildren_def)
next
  case (Suc m)
  then show ?thesis by (cases m) (simp_all add: loop_simps)
qed

subsection \<open>Commit phase: where the callback lists are read\<close>

text \<open>
  Claim C2. \<open>commitRoot\<close> reads \<open>cleanups\<close> (and \<open>effects\<close>) from the root fiber alone:
  when the pending root has no \<open>cleanups\<close> it throws at its first statement, whatever
  the other fibers carry. \<open>render\<close> and a returning \<open>setState\<close> leave a pending root
  without either list. And in every store the engine reaches, a fiber that carries either
  list is the fiber of a function component, while the pending root has no type and
  neither list, so that \<open>commitRoot\<close> throws there, the store left as it was.
\<close>

theorem commitRoot_reads_absent_root_lists:
  "(\<forall>r. wipRoot s = Some r \<and> cleanups (heap s r) = None \<longrightarrow> commitRoot u n s = TypeError s)
   \<and> (\<exists>r. wipRoot (render e c s) = Some r \<and> cleanups (heap (render e c s) r) = None
          \<and> effects (heap (render e c s) r) = None)
   \<and> (\<forall>s'. setState h a s = Ok s' \<longrightarrow>
          (\<exists>r. wipRoot s' = Some r \<and> cleanups (heap s' r) = None \<and> effects (heap s' r) = None))
   \<and> (reachable u s \<longrightarrow>
          (\<forall>r. cleanups (heap s r) \<noteq> None \<or> effects (heap s r) \<noteq> None \<longrightarrow> isFunction (ftype (heap s r)))
        \<and> (\<forall>r. wipRoot s = Some r \<longrightarrow>
              ftype (heap s r) = TUndefined \<and> cleanups (heap s r) = None \<and> effects (heap s r) = None
              \<and> commitRoot u n s = TypeError s))"
proof (intro conjI)
  show "\<forall>r. wipRoot s = Some r \<and> cleanups (heap s r) = None \<longrightarrow> commitRoot u n s = TypeError s"
    by (auto simp: commitRoot_def)
  show "\<exists>r. wipRoot (render e c s) = Some r \<and> cleanups (heap (render e c s) r) = None
          \<and> effects (heap (render e c s) r) = None"
    by (simp add: render_def alloc_def root_fiber_def)
  show "\<forall>s'. setState h a s = Ok s' \<longrightarrow>
          (\<exists>r. wipRoot s' = Some r \<and> cleanups (heap s' r) = None \<and> effects (heap s' r) = None)"
    by (auto simp: setState_def alloc_def root_fiber_def Let_def split: option.splits)
  show "reachable u s \<longrightarrow>
          (\<forall>r. cleanups (heap s r) \<noteq> None \<or> effects (heap s r) \<noteq> None \<longrightarrow> isFunction (ftype (heap s r)))
        \<and> (\<forall>r. wipRoot s = Some r \<longrightarrow>
              ftype (heap s r) = TUndefined \<and> cleanups (heap s r) = None \<and> effects (heap s r) = None
              \<and> commitRoot u n s = TypeError s)"
  proof
    assume "reachable u s"
    then have i: "lists_inv s" by (rule reachable_inv)
    then have "\<forall>r. wipRoot s = Some r \<longrightarrow> cleanups (heap s r) = None"
      by (auto dest: lists_inv_root)
    then have "commitRoot u n s = TypeError s" by (rule commitRoot_throws)
    with i show "(\<forall>r. cleanups (heap s r) \<noteq> None \<or> effects (heap s r) \<noteq> None \<longrightarrow> isFunction (ftype (heap s r)))
        \<and> (\<forall>r. wipRoot s = Some r \<longrightarrow>
              ftype (heap s r) = TUndefined \<and> cleanups (heap s r) = None \<and> effects (heap s r) = None
              \<and> commitRoot u n s = TypeError s)"
      using lists_inv_root [OF i] by (auto simp: lists_inv_def)
  qed
qed

text \<open>Mounting \<open><App/>\<close> in one idle callback: the component fiber 1 has collected the
  effect 8, the root 0 carries no list, and the commit that \<open>workLoop\<close> now attempts
  throws.\<close>

theorem commitRoot_reads_absent_root_lists_witness:
  "\<exists>s. work_while effect_app 4 [5, 5, 5] (render (Some app_el) (Some 0) (init_state\<lparr>nodes := 1\<rparr>)) = Ok s
      \<and> reachable effect_app s \<and> nextUnitOfWork s = None \<and> wipRoot s = Some 0
      \<and> ftype (heap s 1) = TFn 0 \<and> effects (heap s 1) = Some [8]
      \<and> cleanups (heap s 0) = None \<and> effects (heap s 0) = None
      \<and> commitRoot effect_app 4 s = TypeError s"
proof -
  let ?S0 = "render (Some app_el) (Some 0) (init_state\<lparr>nodes := 1\<rparr>)"
  have "\<exists>s. work_while effect_app 4 [5, 5, 5] ?S0 = Ok s
      \<and> nextUnitOfWork s = None \<and> wipRoot s = Some 0
      \<and> ftype (heap s 1) = TFn 0 \<and> effects (heap s 1) = Some [8]"
    by (simp add: unit_simps hook_simps effect_app_def app_el_def
        host_el_def init_state_def root_fiber_def new_fiber_def eprops_def eval_nat_numeral)
  then obtain s where s: "work_while effect_app 4 [5, 5, 5] ?S0 = Ok s"
    and f: "nextUnitOfWork s = None" "wipRoot s = Some 0" "ftype (heap s 1) = TFn 0"
      "effects (heap s 1) = Some [8]"
    by blast
  have "reachable effect_app ?S0" by (intro reachable.call_render reachable.start)
  then have r: "reachable effect_app s" using s by (rule reachable_work_while)
  from commitRoot_reads_absent_root_lists [of s effect_app 4] r f(2)
  have "cleanups (heap s 0) = None \<and> effects (heap s 0) = None \<and> commitRoot effect_app 4 s = TypeError s"
    by simp
  with s r f show ?thesis by blast
qed

subsection \<open>Commit phase: the commit of a mount\<close>



subsection \<open>Commit phase: the effect tags of a mount\<close>

text \<open>
  Claim C6 evaluated. \<open><div><p/><span/><b/></div>\<close> is mounted in container 0 and the
  host grants one idle callback with time for all five units of work. The diff has
  tagged each of the four fibers \<open>PLACEMENT\<close>, once, and each owns its new host node.
  The commit throws at the first statement of \<open>commitRoot\<close> and applies none of the
  tags: no host mutation is in the trace. The traversal it does not reach,
  \<open>commitWork(wipRoot.child)\<close>, would apply each of the four tags once.
\<close>

theorem mount_tags_never_applied:
  "idle_callbacks adder 4 [[5, 5, 5, 5]] (render (Some old_div) (Some 0) (init_state\<lparr>nodes := 1\<rparr>))
     = TypeError mounted_div
   \<and> map (\<lambda>r. effectTag (heap mounted_div r)) [1, 2, 3, 4]
       = [Some PLACEMENT, Some PLACEMENT, Some PLACEMENT, Some PLACEMENT]
   \<and> map (\<lambda>r. fdom (heap mounted_div r)) [1, 2, 3, 4] = [Some 1, Some 2, Some 3, Some 4]
   \<and> filter is_mutation (trace mounted_div) = []
   \<and> commitRoot adder 4 mounted_div = TypeError mounted_div
   \<and> commitWork 6 (child (heap mounted_div 0)) mounted_div
       = Ok (emit [AppendChild 0 1, AppendChild 1 2, AppendChild 1 3, AppendChild 1 4] mounted_div)"
proof -
  have a: "idle_callbacks adder 4 [[5, 5, 5, 5]] (render (Some old_div) (Some 0) (init_state\<lparr>nodes := 1\<rparr>))
     = TypeError mounted_div"
    by (simp add: workLoop_def commitRoot_def unit_simps adder_def tree_simps eval_nat_numeral
        fun_eq_iff emit_def)
  have b: "commitRoot adder 4 mounted_div = TypeError mounted_div"
    by (simp add: commitRoot_def tree_simps)
  have c: "map (\<lambda>r. effectTag (heap mounted_div r)) [1, 2, 3, 4]
       = [Some PLACEMENT, Some PLACEMENT, Some PLACEMENT, Some PLACEMENT]"
    "map (\<lambda>r. fdom (heap mounted_div r)) [1, 2, 3, 4] = [Some 1, Some 2, Some 3, Some 4]"
    "filter is_mutation (trace mounted_div) = []"
    by (simp_all add: tree_simps is_mutation_def)
  have d: "commitWork 6 (child (heap mounted_div 0)) mounted_div
       = Ok (emit [AppendChild 0 1, AppendChild 1 2, AppendChild 1 3, AppendChild 1 4] mounted_div)"
    by (simp add: applyEffect_def tree_simps eval_nat_numeral emit_def)
  from a b c d show ?thesis by simp
qed


text \<open>Past a first commit, \<open>deletions.forEach(commitWork)\<close> would follow the
  \<open>sibling\<close> of a deleted fiber: in \<open>pending_state\<close> the old \<open>span\<close> fiber 3 still links
  to the old \<open>b\<close> fiber 4, and the node of \<open>b\<close> is removed from both.\<close>

lemma commitDeletions_follows_old_sibling:
  "commitDeletions (Suc (Suc (Suc n))) [3, 4] pending_state
     = Ok (emit [RemoveChild 1 3, RemoveChild 1 4, RemoveChild 1 4] pending_state)"
  by (simp add: applyEffect_def pending_state_def tree_simps new_div_def emit_def)

subsection \<open>Work scheduler: order of the units and yields\<close>

declare work_while.simps [simp del]



lemma rbind_assoc: "rbind (rbind r f) g = rbind r (\<lambda>x. rbind (f x) g)"
  by (cases r) simp_all

lemma rbind_Ok_right [simp]: "rbind r Ok = r"
  by (cases r) simp_all












end
